theory Spec2Isabelle
  imports Complex_Main
begin

section \<open>Python values\<close>

text \<open>
  The program is \<^verbatim>\<open>src/app.py\<close>. Its core works on the value that
  \<^verbatim>\<open>json.loads\<close> returns, which may be any JSON value, so the model has one type
  for all of them. A \<^verbatim>\<open>dict\<close> is an association list in insertion order (its keys are
  strings and pairwise different, as \<^verbatim>\<open>json.loads\<close> builds it).

  A \<^verbatim>\<open>str\<close> is a \<open>string\<close>. Case, white space and word characters are those of ASCII;
  a character outside ASCII is written as its UTF-8 bytes and is neither a letter, a digit nor
  white space in the model.
\<close>

text \<open>A \<^verbatim>\<open>float\<close>: the real number a finite binary64 denotes, the two infinities, or NaN.\<close>

datatype pyfloat = Finite real | PosInf | NegInf | NaN

datatype json =
    JNull
  | JBool bool
  | JInt int
  | JFloat pyfloat
  | JStr string
  | JList "json list"
  | JObj "(string \<times> json) list"

text \<open>The exceptions the modelled code can raise.\<close>

datatype error = AttributeError | TypeError | ValueError | OverflowError

text \<open>
  Library functions on floats that are taken as parameters: \<^verbatim>\<open>float(s)\<close> on a string
  (\<open>None\<close> is \<^verbatim>\<open>ValueError\<close>), \<^verbatim>\<open>float(i)\<close> on an integer of magnitude above \<open>2^53\<close>
  (rounded; \<open>None\<close> is \<^verbatim>\<open>OverflowError\<close>), \<^verbatim>\<open>repr(x)\<close> and \<^verbatim>\<open>format(x, ".2f")\<close>.
  Every theorem below holds for all of them.
\<close>

record float_ops =
  float_of_str :: "string \<Rightarrow> pyfloat option"
  float_of_big :: "int \<Rightarrow> pyfloat option"
  repr_float :: "pyfloat \<Rightarrow> string"
  format_2f :: "pyfloat \<Rightarrow> string"

subsection \<open>Characters and strings\<close>

definition backslash :: char where
  "backslash = CHR 0x5C"

definition squote :: char where
  "squote = CHR 0x27"

definition dquote :: char where
  "dquote = CHR 0x22"

definition lower_char :: "char \<Rightarrow> char" where
  "lower_char c =
     (case map_of (zip ''ABCDEFGHIJKLMNOPQRSTUVWXYZ'' ''abcdefghijklmnopqrstuvwxyz'') c of
        Some d \<Rightarrow> d
      | None \<Rightarrow> c)"

text \<open>\<^verbatim>\<open>s.lower()\<close>\<close>

definition lower :: "string \<Rightarrow> string" where
  "lower s = map lower_char s"

text \<open>The characters \<^verbatim>\<open>str.strip()\<close> removes: tab to carriage return, FS to US, space.\<close>

definition is_space :: "char \<Rightarrow> bool" where
  "is_space c \<longleftrightarrow>
     c \<in> set [CHR 0x09, CHR 0x0A, CHR 0x0B, CHR 0x0C, CHR 0x0D,
              CHR 0x1C, CHR 0x1D, CHR 0x1E, CHR 0x1F, CHR 0x20]"

text \<open>\<^verbatim>\<open>s.strip()\<close>\<close>

definition strip :: "string \<Rightarrow> string" where
  "strip s = rev (dropWhile is_space (rev (dropWhile is_space s)))"

fun join :: "string \<Rightarrow> string list \<Rightarrow> string" where
  "join sep [] = []"
| "join sep [x] = x"
| "join sep (x # y # ys) = x @ sep @ join sep (y # ys)"

subsection \<open>\<^verbatim>\<open>str\<close> and \<^verbatim>\<open>repr\<close>\<close>

definition digit_char :: "nat \<Rightarrow> char" where
  "digit_char n = ''0123456789abcdef'' ! n"

function nat_digits :: "nat \<Rightarrow> string" where
  "nat_digits n = (if n < 10 then [digit_char n] else nat_digits (n div 10) @ [digit_char (n mod 10)])"
  by pat_completeness auto
termination
  by (relation "measure id") auto

definition int_digits :: "int \<Rightarrow> string" where
  "int_digits i = (if i < 0 then CHR ''-'' # nat_digits (nat (- i)) else nat_digits (nat i))"

text \<open>
  \<^verbatim>\<open>repr\<close> of a string: single quotes, unless the string has a single quote and no double
  quote; the quote and the backslash are escaped, tab, newline and carriage return are
  written \<^verbatim>\<open>\t\<close>, \<^verbatim>\<open>\n\<close>, \<^verbatim>\<open>\r\<close>, any other control character as \<^verbatim>\<open>\xNN\<close>.
\<close>

definition repr_char :: "char \<Rightarrow> char \<Rightarrow> string" where
  "repr_char q c =
     (if c = q \<or> c = backslash then [backslash, c]
      else if c = CHR 0x09 then [backslash, CHR ''t'']
      else if c = CHR 0x0A then [backslash, CHR ''n'']
      else if c = CHR 0x0D then [backslash, CHR ''r'']
      else if (of_char c :: nat) < 32 \<or> c = CHR 0x7F
        then [backslash, CHR ''x'', digit_char (of_char c div 16), digit_char (of_char c mod 16)]
      else [c])"

definition repr_str :: "string \<Rightarrow> string" where
  "repr_str s =
     (let q = (if squote \<in> set s \<and> dquote \<notin> set s then dquote else squote)
      in q # concat (map (repr_char q) s) @ [q])"

fun repr :: "float_ops \<Rightarrow> json \<Rightarrow> string" where
  "repr B JNull = ''None''"
| "repr B (JBool b) = (if b then ''True'' else ''False'')"
| "repr B (JInt i) = int_digits i"
| "repr B (JFloat f) = repr_float B f"
| "repr B (JStr s) = repr_str s"
| "repr B (JList xs) = ''['' @ join '', '' (map (repr B) xs) @ '']''"
| "repr B (JObj kvs) =
     ''{'' @ join '', '' (map (\<lambda>kv. repr_str (fst kv) @ '': '' @ repr B (snd kv)) kvs) @ ''}''"

text \<open>\<^verbatim>\<open>str(v)\<close>: the string itself, the \<^verbatim>\<open>repr\<close> of anything else.\<close>

definition str :: "float_ops \<Rightarrow> json \<Rightarrow> string" where
  "str B v = (case v of JStr s \<Rightarrow> s | _ \<Rightarrow> repr B v)"

subsection \<open>\<^verbatim>\<open>dict.get\<close>, iteration, \<^verbatim>\<open>float\<close>, \<^verbatim>\<open>min\<close> and \<^verbatim>\<open>max\<close>\<close>

text \<open>The value stored under a key of a \<^verbatim>\<open>dict\<close>, or the default.\<close>

definition field :: "(string \<times> json) list \<Rightarrow> string \<Rightarrow> json \<Rightarrow> json" where
  "field kvs k dflt = (case map_of kvs k of Some v \<Rightarrow> v | None \<Rightarrow> dflt)"

text \<open>\<^verbatim>\<open>d.get(k, dflt)\<close>: only a \<^verbatim>\<open>dict\<close> has the attribute \<^verbatim>\<open>get\<close>.\<close>

definition get :: "json \<Rightarrow> string \<Rightarrow> json \<Rightarrow> error + json" where
  "get d k dflt =
     (case d of
        JObj kvs \<Rightarrow> Inr (field kvs k dflt)
      | _ \<Rightarrow> Inl AttributeError)"

text \<open>
  \<^verbatim>\<open>for x in v\<close>: the elements of a list, the characters of a string, the keys of a
  \<^verbatim>\<open>dict\<close>; nothing else that \<^verbatim>\<open>json.loads\<close> returns is iterable.
\<close>

definition iter :: "json \<Rightarrow> error + json list" where
  "iter v =
     (case v of
        JList xs \<Rightarrow> Inr xs
      | JStr s \<Rightarrow> Inr (map (\<lambda>c. JStr [c]) s)
      | JObj kvs \<Rightarrow> Inr (map (\<lambda>kv. JStr (fst kv)) kvs)
      | _ \<Rightarrow> Inl TypeError)"

text \<open>\<^verbatim>\<open>float(v)\<close>\<close>

definition py_float :: "float_ops \<Rightarrow> json \<Rightarrow> error + pyfloat" where
  "py_float B v =
     (case v of
        JFloat f \<Rightarrow> Inr f
      | JInt i \<Rightarrow>
          (if \<bar>i\<bar> \<le> 2 ^ 53 then Inr (Finite (of_int i))
           else (case float_of_big B i of None \<Rightarrow> Inl OverflowError | Some f \<Rightarrow> Inr f))
      | JBool b \<Rightarrow> Inr (Finite (if b then 1 else 0))
      | JStr s \<Rightarrow> (case float_of_str B s of None \<Rightarrow> Inl ValueError | Some f \<Rightarrow> Inr f)
      | _ \<Rightarrow> Inl TypeError)"

text \<open>\<^verbatim>\<open>a < b\<close> on floats: false whenever one side is NaN.\<close>

fun float_lt :: "pyfloat \<Rightarrow> pyfloat \<Rightarrow> bool" where
  "float_lt NaN b = False"
| "float_lt a NaN = False"
| "float_lt (Finite x) (Finite y) = (x < y)"
| "float_lt (Finite x) PosInf = True"
| "float_lt (Finite x) NegInf = False"
| "float_lt PosInf b = False"
| "float_lt NegInf (Finite y) = True"
| "float_lt NegInf PosInf = True"
| "float_lt NegInf NegInf = False"

text \<open>
  \<^verbatim>\<open>min(a, b)\<close> and \<^verbatim>\<open>max(a, b)\<close> keep the first argument unless the second is strictly
  smaller (greater).
\<close>

definition py_min :: "pyfloat \<Rightarrow> pyfloat \<Rightarrow> pyfloat" where
  "py_min a b = (if float_lt b a then b else a)"

definition py_max :: "pyfloat \<Rightarrow> pyfloat \<Rightarrow> pyfloat" where
  "py_max a b = (if float_lt a b then b else a)"

subsection \<open>\<^verbatim>\<open>set\<close>\<close>

text \<open>
  Python compares \<^verbatim>\<open>True\<close>, \<^verbatim>\<open>1\<close> and \<^verbatim>\<open>1.0\<close> equal, so the elements of a set are compared
  by their numeric value where they have one. Lists and \<^verbatim>\<open>dict\<close>s are not hashable.
\<close>

definition num_value :: "json \<Rightarrow> pyfloat option" where
  "num_value v =
     (case v of
        JBool b \<Rightarrow> Some (Finite (if b then 1 else 0))
      | JInt i \<Rightarrow> Some (Finite (of_int i))
      | JFloat f \<Rightarrow> Some f
      | _ \<Rightarrow> None)"

definition py_eq :: "json \<Rightarrow> json \<Rightarrow> bool" where
  "py_eq v w =
     (case (num_value v, num_value w) of
        (Some a, Some b) \<Rightarrow> a = b
      | (None, None) \<Rightarrow> v = w
      | _ \<Rightarrow> False)"

definition hashable :: "json \<Rightarrow> bool" where
  "hashable v = (case v of JList xs \<Rightarrow> False | JObj kvs \<Rightarrow> False | _ \<Rightarrow> True)"

definition set_add :: "json list \<Rightarrow> json \<Rightarrow> json list" where
  "set_add acc x = (if list_ex (\<lambda>y. py_eq y x) acc then acc else acc @ [x])"

text \<open>
  \<^verbatim>\<open>list(set(v))\<close>. The order in which a Python set is listed is not specified; the
  model lists the elements in the order of their first insertion.
\<close>

definition list_set :: "json \<Rightarrow> error + json list" where
  "list_set v =
     (case iter v of
        Inl e \<Rightarrow> Inl e
      | Inr xs \<Rightarrow> (if list_all hashable xs then Inr (foldl set_add [] xs) else Inl TypeError))"

section \<open>The response normalizer\<close>

text \<open>The entries of \<^verbatim>\<open>urls_list\<close>, each a \<^verbatim>\<open>dict\<close> with the keys \<^verbatim>\<open>url\<close> and \<^verbatim>\<open>status\<close>.\<close>

record url_entry =
  url :: string
  status :: string

record GeminiSMSResult =
  verdict :: string
  confidence :: pyfloat
  reasons :: "string list"
  risky_phrases :: "json list"
  urls :: "url_entry list"
  user_message :: string

text \<open>
  Lines 80 to 85 open the image, call the model and decode its reply. What the normalizer
  sees of them is their outcome: an \<^verbatim>\<open>Exception\<close> \<open>e\<close>, given by \<^verbatim>\<open>str(e)\<close>, or the
  decoded value.
\<close>

datatype outcome = Raised string | Loaded json

text \<open>The \<^verbatim>\<open>dict\<close> of the \<^verbatim>\<open>except\<close> branch, lines 87 to 94.\<close>

definition error_data :: "string \<Rightarrow> json" where
  "error_data msg =
     JObj [(''verdict'', JStr ''unknown''),
           (''confidence'', JFloat (Finite 0)),
           (''reasons'', JList [JStr (''Gemini error: '' @ msg)]),
           (''risky_phrases'', JList []),
           (''urls'', JList []),
           (''user_message'', JStr ''Automatic analysis failed.'')]"

text \<open>Lines 96 to 98.\<close>

definition norm_verdict :: "float_ops \<Rightarrow> json \<Rightarrow> error + string" where
  "norm_verdict B data =
     (case get data ''verdict'' (JStr ''unknown'') of
        Inl e \<Rightarrow> Inl e
      | Inr v \<Rightarrow>
          (let verdict = lower (str B v)
           in Inr (if verdict \<notin> {''safe'', ''suspicious'', ''phishing''} then ''unknown''
                   else verdict)))"

text \<open>
  Lines 100 to 104. The \<^verbatim>\<open>try\<close> covers the lookup as well as the conversion, and
  \<^verbatim>\<open>except Exception\<close> catches each error of the model.
\<close>

definition norm_confidence :: "float_ops \<Rightarrow> json \<Rightarrow> pyfloat" where
  "norm_confidence B data =
     (let confidence =
        (case get data ''confidence'' (JFloat (Finite 0)) of
           Inl e \<Rightarrow> Finite 0
         | Inr v \<Rightarrow> (case py_float B v of Inl e \<Rightarrow> Finite 0 | Inr f \<Rightarrow> f))
      in py_max (Finite 0) (py_min (Finite 1) confidence))"

text \<open>Line 106.\<close>

definition norm_reasons :: "float_ops \<Rightarrow> json \<Rightarrow> error + string list" where
  "norm_reasons B data =
     (case get data ''reasons'' (JList []) of
        Inl e \<Rightarrow> Inl e
      | Inr v \<Rightarrow> (case iter v of Inl e \<Rightarrow> Inl e | Inr rs \<Rightarrow> Inr (take 6 (map (str B) rs))))"

text \<open>Line 107.\<close>

definition norm_risky_phrases :: "json \<Rightarrow> error + json list" where
  "norm_risky_phrases data =
     (case get data ''risky_phrases'' (JList []) of Inl e \<Rightarrow> Inl e | Inr v \<Rightarrow> list_set v)"

text \<open>Lines 111 to 115, the body of the loop.\<close>

definition url_item :: "float_ops \<Rightarrow> json \<Rightarrow> error + url_entry" where
  "url_item B item =
     (case get item ''url'' (JStr []) of
        Inl e \<Rightarrow> Inl e
      | Inr uv \<Rightarrow>
          (case get item ''status'' (JStr []) of
             Inl e \<Rightarrow> Inl e
           | Inr sv \<Rightarrow>
               (let u = strip (str B uv);
                    s = lower (str B sv);
                    s = (if s \<notin> {''safe'', ''suspicious'', ''phishing''} then ''suspicious'' else s)
                in Inr \<lparr>url = u, status = s\<rparr>)))"

text \<open>Lines 109 to 115: the loop appends to \<^verbatim>\<open>urls_list\<close> and stops at the first error.\<close>

fun url_loop :: "float_ops \<Rightarrow> json list \<Rightarrow> url_entry list \<Rightarrow> error + url_entry list" where
  "url_loop B [] urls_list = Inr urls_list"
| "url_loop B (item # items) urls_list =
     (case url_item B item of
        Inl e \<Rightarrow> Inl e
      | Inr d \<Rightarrow> url_loop B items (urls_list @ [d]))"

definition norm_urls :: "float_ops \<Rightarrow> json \<Rightarrow> error + url_entry list" where
  "norm_urls B data =
     (case get data ''urls'' (JList []) of
        Inl e \<Rightarrow> Inl e
      | Inr v \<Rightarrow> (case iter v of Inl e \<Rightarrow> Inl e | Inr items \<Rightarrow> url_loop B items []))"

text \<open>Line 117: \<^verbatim>\<open>strip\<close> is called on the value as it is; only a string has it.\<close>

definition norm_user_message :: "json \<Rightarrow> error + string" where
  "norm_user_message data =
     (case get data ''user_message'' (JStr []) of
        Inl e \<Rightarrow> Inl e
      | Inr v \<Rightarrow>
          (case v of
             JStr s \<Rightarrow> Inr (if strip s = [] then ''No explanation provided.'' else strip s)
           | _ \<Rightarrow> Inl AttributeError))"

text \<open>Lines 96 to 126, in the order of the source; the first error ends the call.\<close>

definition normalize_reply :: "float_ops \<Rightarrow> json \<Rightarrow> error + GeminiSMSResult" where
  "normalize_reply B data =
     (case norm_verdict B data of
        Inl e \<Rightarrow> Inl e
      | Inr v \<Rightarrow>
     (let c = norm_confidence B data in
     (case norm_reasons B data of
        Inl e \<Rightarrow> Inl e
      | Inr rs \<Rightarrow>
     (case norm_risky_phrases data of
        Inl e \<Rightarrow> Inl e
      | Inr ps \<Rightarrow>
     (case norm_urls B data of
        Inl e \<Rightarrow> Inl e
      | Inr us \<Rightarrow>
     (case norm_user_message data of
        Inl e \<Rightarrow> Inl e
      | Inr m \<Rightarrow>
          Inr \<lparr>verdict = v, confidence = c, reasons = rs, risky_phrases = ps,
               urls = us, user_message = m\<rparr>))))))"

definition call_gemini_sms_image :: "float_ops \<Rightarrow> outcome \<Rightarrow> error + GeminiSMSResult" where
  "call_gemini_sms_image B out =
     normalize_reply B (case out of Raised msg \<Rightarrow> error_data msg | Loaded data \<Rightarrow> data)"

text \<open>
  One choice of the float functions, used to evaluate concrete inputs: it reads no string
  as a number (as Python does with \<^verbatim>\<open>"0.95abc"\<close>) and is applied to no other string.
\<close>

definition sample_ops :: float_ops where
  "sample_ops =
     \<lparr>float_of_str = (\<lambda>s. None), float_of_big = (\<lambda>i. None),
      repr_float = (\<lambda>f. ''?''), format_2f = (\<lambda>f. ''?'')\<rparr>"

section \<open>The highlighting formatter\<close>

text \<open>\<^verbatim>\<open>markupsafe.escape\<close>\<close>

definition escape_char :: "char \<Rightarrow> string" where
  "escape_char c =
     (if c = CHR ''&'' then ''&amp;''
      else if c = CHR ''<'' then ''&lt;''
      else if c = CHR ''>'' then ''&gt;''
      else if c = squote then ''&#39;''
      else if c = dquote then ''&#34;''
      else [c])"

definition escape :: "string \<Rightarrow> string" where
  "escape s = concat (map escape_char s)"

text \<open>The class \<^verbatim>\<open>\w\<close>: letters, digits and the underscore.\<close>

definition is_word :: "char \<Rightarrow> bool" where
  "is_word c \<longleftrightarrow>
     c \<in> set ''abcdefghijklmnopqrstuvwxyzABCDEFGHIJKLMNOPQRSTUVWXYZ0123456789_''"

text \<open>
  \<^verbatim>\<open>\b\<close> between a position whose previous character is a word character or not
  (\<open>prevw\<close>; false at the start) and the rest of the string.
\<close>

definition word_boundary :: "bool \<Rightarrow> string \<Rightarrow> bool" where
  "word_boundary prevw s = (prevw \<noteq> (case s of [] \<Rightarrow> False | c # cs \<Rightarrow> is_word c))"

text \<open>The escaped phrase under \<^verbatim>\<open>(?i)\<close>: the phrase, letter for letter, in either case.\<close>

definition ci_prefix :: "string \<Rightarrow> string \<Rightarrow> bool" where
  "ci_prefix p s = (length p \<le> length s \<and> lower p = lower (take (length p) s))"

text \<open>
  The pattern \<^verbatim>\<open>(?i)\b(p)\b\<close> matches at the start of \<open>s\<close>, after a character that is a
  word character or not.
\<close>

definition match_here :: "string \<Rightarrow> bool \<Rightarrow> string \<Rightarrow> bool" where
  "match_here p prevw s =
     (word_boundary prevw s \<and> ci_prefix p s \<and>
      word_boundary (if p = [] then prevw else is_word (last (take (length p) s)))
        (drop (length p) s))"

text \<open>
  A replacement template of \<^verbatim>\<open>re\<close>, as far as line 52 uses the syntax: a backslash
  followed by a backslash is one backslash, a backslash followed by \<^verbatim>\<open>1\<close> is group 1,
  every other character stands for itself.
\<close>

fun expand_template :: "string \<Rightarrow> string \<Rightarrow> string" where
  "expand_template (c # d # cs) g =
     (if c = backslash \<and> d = backslash then backslash # expand_template cs g
      else if c = backslash \<and> d = CHR ''1'' then g @ expand_template cs g
      else c # expand_template (d # cs) g)"
| "expand_template cs g = cs"

text \<open>
  The template of line 52 is the raw string \<^verbatim>\<open>r"<mark>\\1</mark>"\<close>: in a raw string the
  two backslashes are two characters.
\<close>

definition mark_template :: string where
  "mark_template = ''<mark>'' @ [backslash, backslash] @ ''1</mark>''"

text \<open>
  \<^verbatim>\<open>pattern.sub(template, s)\<close> for the pattern \<^verbatim>\<open>(?i)\b(p)\b\<close>: the matches are taken
  from left to right and do not overlap; an empty match is followed by the next character.
\<close>

fun sub_from :: "string \<Rightarrow> string \<Rightarrow> bool \<Rightarrow> string \<Rightarrow> string" where
  "sub_from p tmpl prevw [] =
     (if match_here p prevw [] then expand_template tmpl [] else [])"
| "sub_from p tmpl prevw (c # cs) =
     (if match_here p prevw (c # cs) then
        (if p = [] then expand_template tmpl [] @ c # sub_from p tmpl (is_word c) cs
         else expand_template tmpl (take (length p) (c # cs)) @
              sub_from p tmpl (is_word (last (take (length p) (c # cs)))) (drop (length p - 1) cs))
      else c # sub_from p tmpl (is_word c) cs)"

definition re_sub :: "string \<Rightarrow> string \<Rightarrow> string \<Rightarrow> string" where
  "re_sub p tmpl s = sub_from p tmpl False s"

text \<open>
  \<^verbatim>\<open>sorted(set(phrases), key=len, reverse=True)\<close>: a stable sort, which with
  \<^verbatim>\<open>reverse=True\<close> keeps phrases of equal length in the order of the set. That order is
  not specified by Python; the model takes the order of first occurrence.
\<close>

definition phrase_order :: "string list \<Rightarrow> string list" where
  "phrase_order phrases = sort_key (\<lambda>p. - int (length p)) (rev (remdups (rev phrases)))"

text \<open>Lines 48 to 53.\<close>

definition highlight_phrases :: "string \<Rightarrow> string list \<Rightarrow> string" where
  "highlight_phrases text phrases =
     foldl (\<lambda>escaped p. re_sub p mark_template escaped) (escape text) (phrase_order phrases)"

section \<open>The route\<close>

datatype http_method = GET | POST

text \<open>
  An uploaded file as \<^verbatim>\<open>request.files.get("image")\<close> returns it; the object is true when
  its \<^verbatim>\<open>filename\<close> is not empty.
\<close>

record file_storage =
  filename :: string

text \<open>The request: \<^verbatim>\<open>request.method\<close> and \<^verbatim>\<open>request.files.get("image")\<close>.\<close>

record request =
  req_method :: http_method
  image :: "file_storage option"

text \<open>The \<^verbatim>\<open>dict\<close> of lines 148 to 163.\<close>

record analysis_dict =
  badge :: string
  a_verdict :: string
  a_confidence :: string
  a_reasons :: "string list"
  a_risky_phrases :: "json list"
  a_urls :: "url_entry list"
  a_user_message :: string
  recommendations :: "string list"

text \<open>The arguments of \<^verbatim>\<open>render_template\<close>, lines 165 to 169.\<close>

record page =
  image_path :: "string option"
  sms_text :: string
  highlighted_text :: string
  analysis :: "analysis_dict option"

definition UPLOAD_FOLDER :: string where
  "UPLOAD_FOLDER = ''static/uploads''"

text \<open>\<^verbatim>\<open>os.path.join(a, b)\<close> on POSIX.\<close>

definition path_join :: "string \<Rightarrow> string \<Rightarrow> string" where
  "path_join a b =
     (case b of
        c # cs \<Rightarrow>
          (if c = CHR ''/'' then b
           else if a = [] \<or> last a = CHR ''/'' then a @ b
           else a @ ''/'' @ b)
      | [] \<Rightarrow> (if a = [] \<or> last a = CHR ''/'' then a else a @ ''/''))"

text \<open>Line 144; the signs before the words are written as their UTF-8 bytes.\<close>

definition badge_of :: "string \<Rightarrow> string" where
  "badge_of v =
     (if v = ''safe'' then [CHR 0xE2, CHR 0x9C, CHR 0x85] @ '' Safe''
      else if v = ''suspicious'' then [CHR 0xE2, CHR 0x9A, CHR 0xA0] @ '' Suspicious''
      else if v = ''phishing'' then [CHR 0xE2, CHR 0x9D, CHR 0x8C] @ '' Phishing''
      else [CHR 0xE2, CHR 0x9D, CHR 0x94] @ '' Unknown'')"

definition OCR_NOTE :: string where
  "OCR_NOTE = ''(OCR skipped '' @ [CHR 0xE2, CHR 0x80, CHR 0x93] @ '' Gemini vision used)''"

definition RECOMMENDATIONS :: "string list" where
  "RECOMMENDATIONS =
     [''Don'' @ [CHR 0xE2, CHR 0x80, CHR 0x99] @ ''t click links in suspicious messages.'',
      ''Never share passwords or OTP over SMS.'',
      ''Contact the organization via official channels.'',
      ''Report phishing SMS to your carrier or cybercrime authority.'',
      ''Delete the SMS if phishing is confirmed.'']"

text \<open>
  The phrases as strings. \<^verbatim>\<open>risky_phrases\<close> holds whatever hashable values the reply
  had, and \<^verbatim>\<open>len\<close> in line 50 raises \<^verbatim>\<open>TypeError\<close> on one that is not a string.
\<close>

fun strings_of :: "json list \<Rightarrow> error + string list" where
  "strings_of [] = Inr []"
| "strings_of (JStr s # vs) = (case strings_of vs of Inl e \<Rightarrow> Inl e | Inr ss \<Rightarrow> Inr (s # ss))"
| "strings_of (v # vs) = Inl TypeError"

text \<open>
  Lines 132 to 169. The result is the list of the paths written by \<^verbatim>\<open>file.save\<close> and
  the page rendered, or the error that left the handler. \<open>model\<close> gives the outcome of
  lines 80 to 85 for the image at a path.
\<close>

definition index ::
  "float_ops \<Rightarrow> (string \<Rightarrow> outcome) \<Rightarrow> request \<Rightarrow> string list \<times> (error + page)" where
  "index B model req =
     (let blank = ([], Inr \<lparr>image_path = None, sms_text = '''', highlighted_text = '''',
                            analysis = None\<rparr>)
      in if req_method req = POST then
        (case image req of
           None \<Rightarrow> blank
         | Some file \<Rightarrow>
             (if filename file \<noteq> [] then
                (let uploaded_path = path_join UPLOAD_FOLDER (filename file)
                 in ([uploaded_path],
                     (case call_gemini_sms_image B (model uploaded_path) of
                        Inl e \<Rightarrow> Inl e
                      | Inr gem \<Rightarrow>
                          (case strings_of (risky_phrases gem) of
                             Inl e \<Rightarrow> Inl e
                           | Inr phrases \<Rightarrow>
                               Inr \<lparr>image_path = Some uploaded_path, sms_text = '''',
                                    highlighted_text = highlight_phrases OCR_NOTE phrases,
                                    analysis = Some
                                      \<lparr>badge = badge_of (verdict gem),
                                       a_verdict = verdict gem,
                                       a_confidence = format_2f B (confidence gem),
                                       a_reasons = reasons gem,
                                       a_risky_phrases = risky_phrases gem,
                                       a_urls = urls gem,
                                       a_user_message = user_message gem,
                                       recommendations = RECOMMENDATIONS\<rparr>\<rparr>))))
              else blank))
      else blank)"

section \<open>Predicates used to state the properties\<close>

definition is_dict :: "json \<Rightarrow> bool" where
  "is_dict v = (case v of JObj kvs \<Rightarrow> True | _ \<Rightarrow> False)"

text \<open>
  A reply of the advertised shape, as far as the normalizer depends on it: a \<^verbatim>\<open>dict\<close>
  in which \<^verbatim>\<open>reasons\<close> is iterable, \<^verbatim>\<open>risky_phrases\<close> is an iterable of hashable values,
  \<^verbatim>\<open>urls\<close> is an iterable of \<^verbatim>\<open>dict\<close>s and \<^verbatim>\<open>user_message\<close> is a string, each
  where it is present.
\<close>

definition well_shaped :: "json \<Rightarrow> bool" where
  "well_shaped data =
     (case data of
        JObj kvs \<Rightarrow>
          (case iter (field kvs ''reasons'' (JList [])) of Inl e \<Rightarrow> False | Inr rs \<Rightarrow> True) \<and>
          (case iter (field kvs ''risky_phrases'' (JList [])) of
             Inl e \<Rightarrow> False
           | Inr ps \<Rightarrow> list_all hashable ps) \<and>
          (case iter (field kvs ''urls'' (JList [])) of
             Inl e \<Rightarrow> False
           | Inr items \<Rightarrow> list_all is_dict items) \<and>
          (case field kvs ''user_message'' (JStr []) of JStr s \<Rightarrow> True | _ \<Rightarrow> False)
      | _ \<Rightarrow> False)"

text \<open>
  The greatest number of \<^verbatim>\<open><mark>\<close> elements open at once in a string, starting from
  \<open>d\<close> open ones: 1 when no marker lies inside another, 2 or more when markers are nested.
\<close>

fun nesting_depth :: "nat \<Rightarrow> string \<Rightarrow> nat" where
  "nesting_depth d [] = d"
| "nesting_depth d (c # cs) =
     (if take 6 (c # cs) = ''<mark>'' then max (d + 1) (nesting_depth (d + 1) cs)
      else if take 7 (c # cs) = ''</mark>'' then max d (nesting_depth (d - 1) cs)
      else nesting_depth d cs)"

section \<open>Facts about the normalizer\<close>

lemma normalize_reply_Inr_iff:
  "normalize_reply B data = Inr r \<longleftrightarrow>
     norm_verdict B data = Inr (verdict r) \<and> confidence r = norm_confidence B data \<and>
     norm_reasons B data = Inr (reasons r) \<and> norm_risky_phrases data = Inr (risky_phrases r) \<and>
     norm_urls B data = Inr (urls r) \<and> norm_user_message data = Inr (user_message r)"
  by (cases r) (auto simp: normalize_reply_def Let_def split: sum.splits)

lemma norm_verdict_Inr:
  "norm_verdict B data = Inr v \<Longrightarrow> \<exists>kvs. data = JObj kvs"
  by (auto simp: norm_verdict_def get_def split: json.splits sum.splits)

lemma normalize_reply_dict:
  "normalize_reply B data = Inr r \<Longrightarrow> \<exists>kvs. data = JObj kvs"
  using norm_verdict_Inr by (auto simp: normalize_reply_Inr_iff)

lemma get_JObj: "get (JObj kvs) k dflt = Inr (field kvs k dflt)"
  by (simp add: get_def)

lemma clamp_Finite:
  "py_max (Finite 0) (py_min (Finite 1) (Finite x)) = Finite (max 0 (min 1 x))"
  by (simp add: py_max_def py_min_def max_def min_def)

lemma clamp_other:
  "py_max (Finite 0) (py_min (Finite 1) PosInf) = Finite 1"
  "py_max (Finite 0) (py_min (Finite 1) NegInf) = Finite 0"
  "py_max (Finite 0) (py_min (Finite 1) NaN) = Finite 1"
  by (simp_all add: py_max_def py_min_def)

lemma clamp_range:
  "\<exists>x. py_max (Finite 0) (py_min (Finite 1) f) = Finite x \<and> 0 \<le> x \<and> x \<le> 1"
  by (cases f) (simp_all add: clamp_Finite clamp_other)

lemma url_loop_Inr:
  "url_loop B items acc = Inr out \<Longrightarrow>
     \<exists>ds. out = acc @ ds \<and> list_all2 (\<lambda>item d. url_item B item = Inr d) items ds"
proof (induction items arbitrary: acc)
  case Nil
  then show ?case by simp
next
  case (Cons item items)
  then obtain d where d: "url_item B item = Inr d"
    and l: "url_loop B items (acc @ [d]) = Inr out"
    by (auto split: sum.splits)
  from Cons.IH [OF l] obtain ds where "out = (acc @ [d]) @ ds"
    and "list_all2 (\<lambda>item d. url_item B item = Inr d) items ds" by blast
  with d have "out = acc @ (d # ds) \<and>
      list_all2 (\<lambda>item d. url_item B item = Inr d) (item # items) (d # ds)"
    by simp
  then show ?case by blast
qed

lemma url_loop_dicts:
  "list_all is_dict items \<Longrightarrow> \<exists>out. url_loop B items acc = Inr out"
proof (induction items arbitrary: acc)
  case Nil
  then show ?case by simp
next
  case (Cons item items)
  from Cons.prems obtain kvs where "item = JObj kvs"
    by (cases item) (simp_all add: is_dict_def)
  then obtain d where "url_item B item = Inr d"
    by (simp add: url_item_def get_def Let_def)
  moreover from Cons.prems have "list_all is_dict items" by simp
  ultimately show ?case using Cons.IH by simp
qed

lemma url_item_Inr:
  "url_item B item = Inr d \<Longrightarrow>
     \<exists>uv sv. get item ''url'' (JStr []) = Inr uv \<and> get item ''status'' (JStr []) = Inr sv \<and>
       url d = strip (str B uv) \<and>
       status d = (if lower (str B sv) \<in> {''safe'', ''suspicious'', ''phishing''}
                   then lower (str B sv) else ''suspicious'')"
  by (auto simp: url_item_def Let_def split: sum.splits)

section \<open>The claims\<close>

text \<open>
  C1, as the code has it. The normalizer returns a result for every reply that is a
  \<^verbatim>\<open>dict\<close> whose \<^verbatim>\<open>reasons\<close> is iterable, whose \<^verbatim>\<open>risky_phrases\<close> is an iterable of
  hashable values, whose \<^verbatim>\<open>urls\<close> is an iterable of \<^verbatim>\<open>dict\<close>s and whose
  \<^verbatim>\<open>user_message\<close> is a string, each of the four where present; this includes the empty
  \<^verbatim>\<open>dict\<close> and any missing key.
\<close>

theorem normalizer_returns_on_well_shaped:
  assumes "well_shaped data"
  shows "\<exists>r. call_gemini_sms_image B (Loaded data) = Inr r"
proof -
  from assms obtain kvs where d: "data = JObj kvs"
    by (cases data) (simp_all add: well_shaped_def)
  from assms d obtain rs where rs: "iter (field kvs ''reasons'' (JList [])) = Inr rs"
    by (auto simp: well_shaped_def split: sum.splits)
  from assms d obtain ps where ps: "iter (field kvs ''risky_phrases'' (JList [])) = Inr ps"
    and hs: "list_all hashable ps"
    by (auto simp: well_shaped_def split: sum.splits)
  from assms d obtain items where it: "iter (field kvs ''urls'' (JList [])) = Inr items"
    and ds: "list_all is_dict items"
    by (auto simp: well_shaped_def split: sum.splits)
  from assms d obtain s where s: "field kvs ''user_message'' (JStr []) = JStr s"
    by (auto simp: well_shaped_def split: sum.splits json.splits)
  obtain v where v: "norm_verdict B data = Inr v"
    by (simp add: norm_verdict_def d get_JObj Let_def)
  have r: "norm_reasons B data = Inr (take 6 (map (str B) rs))"
    by (simp add: norm_reasons_def d get_JObj rs)
  have p: "norm_risky_phrases data = Inr (foldl set_add [] ps)"
    by (simp add: norm_risky_phrases_def d get_JObj list_set_def ps hs)
  obtain us where u: "norm_urls B data = Inr us"
    using url_loop_dicts [OF ds, of B "[]"] by (auto simp: norm_urls_def d get_JObj it)
  obtain m where m: "norm_user_message data = Inr m"
    by (simp add: norm_user_message_def d get_JObj s)
  show ?thesis
    by (simp add: call_gemini_sms_image_def normalize_reply_def v r p u m Let_def)
qed

theorem normalizer_returns_on_well_shaped_witness:
  "well_shaped (JObj [(''verdict'', JInt 3), (''confidence'', JNull),
                      (''reasons'', JStr ''ab''), (''urls'', JList [JObj []])]) \<and>
   (\<exists>r. call_gemini_sms_image sample_ops
          (Loaded (JObj [(''verdict'', JInt 3), (''confidence'', JNull),
                         (''reasons'', JStr ''ab''), (''urls'', JList [JObj []])])) = Inr r)"
proof -
  have h: "well_shaped (JObj [(''verdict'', JInt 3), (''confidence'', JNull),
                              (''reasons'', JStr ''ab''), (''urls'', JList [JObj []])])"
    by code_simp
  from normalizer_returns_on_well_shaped [OF h] h show ?thesis by blast
qed

text \<open>
  C1 as the specification states it fails: a reply that is a JSON list has no \<^verbatim>\<open>get\<close>,
  and line 96 raises \<^verbatim>\<open>AttributeError\<close>.
\<close>

theorem normalizer_raises_on_list:
  "call_gemini_sms_image sample_ops (Loaded (JList [])) = Inl AttributeError"
  by code_simp

text \<open>
  C9. Whenever the normalizer returns, the verdict is the value under \<^verbatim>\<open>verdict\<close>
  (\<^verbatim>\<open>"unknown"\<close> if the key is missing) read as text and lower-cased, replaced by
  \<^verbatim>\<open>"unknown"\<close> unless it is one of safe, suspicious, phishing. So the verdict is one of
  the four, and a string that is one of the three in any casing gives its lower-case form.
\<close>

theorem verdict_closed_enumeration:
  assumes "normalize_reply B data = Inr r"
  shows "verdict r \<in> {''safe'', ''suspicious'', ''phishing'', ''unknown''} \<and>
         (\<exists>v. get data ''verdict'' (JStr ''unknown'') = Inr v \<and>
              verdict r = (if lower (str B v) \<in> {''safe'', ''suspicious'', ''phishing''}
                           then lower (str B v) else ''unknown'') \<and>
              (\<forall>s. v = JStr s \<and> lower s \<in> {''safe'', ''suspicious'', ''phishing''}
                   \<longrightarrow> verdict r = lower s))"
proof -
  from assms have v: "norm_verdict B data = Inr (verdict r)"
    by (simp add: normalize_reply_Inr_iff)
  then obtain kvs where d: "data = JObj kvs"
    using norm_verdict_Inr by blast
  let ?v = "field kvs ''verdict'' (JStr ''unknown'')"
  have g: "get data ''verdict'' (JStr ''unknown'') = Inr ?v"
    by (simp add: d get_JObj)
  from v have e: "verdict r = (if lower (str B ?v) \<in> {''safe'', ''suspicious'', ''phishing''}
                               then lower (str B ?v) else ''unknown'')"
    by (auto simp: norm_verdict_def g Let_def split: if_splits)
  have m: "verdict r \<in> {''safe'', ''suspicious'', ''phishing'', ''unknown''}"
    unfolding e by (cases "lower (str B ?v) \<in> {''safe'', ''suspicious'', ''phishing''}") auto
  have c: "\<forall>s. ?v = JStr s \<and> lower s \<in> {''safe'', ''suspicious'', ''phishing''}
               \<longrightarrow> verdict r = lower s"
    unfolding e by (simp add: str_def)
  from m g e c show ?thesis by blast
qed

theorem verdict_closed_enumeration_witness:
  "normalize_reply sample_ops (JObj [(''verdict'', JStr ''SAFE'')]) =
     Inr \<lparr>verdict = ''safe'', confidence = Finite 0, reasons = [], risky_phrases = [],
          urls = [], user_message = ''No explanation provided.''\<rparr> \<and>
   verdict \<lparr>verdict = ''safe'', confidence = Finite 0, reasons = [], risky_phrases = [],
            urls = [], user_message = ''No explanation provided.''\<rparr>
     \<in> {''safe'', ''suspicious'', ''phishing'', ''unknown''}"
proof -
  have h: "normalize_reply sample_ops (JObj [(''verdict'', JStr ''SAFE'')]) =
     Inr \<lparr>verdict = ''safe'', confidence = Finite 0, reasons = [], risky_phrases = [],
          urls = [], user_message = ''No explanation provided.''\<rparr>"
    by code_simp
  from verdict_closed_enumeration [OF h] h show ?thesis by blast
qed

text \<open>
  C8. Whenever the normalizer returns, the confidence is a finite number between 0 and 1.
  It is 0 when \<^verbatim>\<open>float\<close> fails on the value under \<^verbatim>\<open>confidence\<close> (0.0 if the key is
  missing); otherwise it is the converted number cut to the interval: a number above 1 and
  plus infinity give 1, a number below 0 and minus infinity give 0. NaN gives 1.
\<close>

theorem confidence_clamped:
  assumes "normalize_reply B data = Inr r"
  shows "(\<exists>x. confidence r = Finite x \<and> 0 \<le> x \<and> x \<le> 1) \<and>
         (\<exists>v. get data ''confidence'' (JFloat (Finite 0)) = Inr v \<and>
              (case py_float B v of
                 Inl e \<Rightarrow> confidence r = Finite 0
               | Inr (Finite x) \<Rightarrow> confidence r = Finite (max 0 (min 1 x))
               | Inr PosInf \<Rightarrow> confidence r = Finite 1
               | Inr NegInf \<Rightarrow> confidence r = Finite 0
               | Inr NaN \<Rightarrow> confidence r = Finite 1))"
proof -
  from assms have c: "confidence r = norm_confidence B data"
    by (simp add: normalize_reply_Inr_iff)
  from assms obtain kvs where d: "data = JObj kvs"
    using normalize_reply_dict by blast
  have "\<exists>x. confidence r = Finite x \<and> 0 \<le> x \<and> x \<le> 1"
    unfolding c norm_confidence_def Let_def by (rule clamp_range)
  moreover
  obtain v where g: "get data ''confidence'' (JFloat (Finite 0)) = Inr v"
    using d by (simp add: get_def)
  have "case py_float B v of
          Inl e \<Rightarrow> confidence r = Finite 0
        | Inr (Finite x) \<Rightarrow> confidence r = Finite (max 0 (min 1 x))
        | Inr PosInf \<Rightarrow> confidence r = Finite 1
        | Inr NegInf \<Rightarrow> confidence r = Finite 0
        | Inr NaN \<Rightarrow> confidence r = Finite 1"
    unfolding c norm_confidence_def Let_def g
    by (simp add: clamp_Finite clamp_other split: sum.splits pyfloat.splits)
  ultimately show ?thesis using g by blast
qed

theorem confidence_clamped_witness:
  "normalize_reply sample_ops (JObj [(''confidence'', JInt 7)]) =
     Inr \<lparr>verdict = ''unknown'', confidence = Finite 1, reasons = [], risky_phrases = [],
          urls = [], user_message = ''No explanation provided.''\<rparr> \<and>
   (\<exists>x. confidence \<lparr>verdict = ''unknown'', confidence = Finite 1, reasons = [],
                     risky_phrases = [], urls = [],
                     user_message = ''No explanation provided.''\<rparr> = Finite x \<and>
        0 \<le> x \<and> x \<le> 1)"
proof -
  have h: "normalize_reply sample_ops (JObj [(''confidence'', JInt 7)]) =
     Inr \<lparr>verdict = ''unknown'', confidence = Finite 1, reasons = [], risky_phrases = [],
          urls = [], user_message = ''No explanation provided.''\<rparr>"
    by code_simp
  from confidence_clamped [OF h] h show ?thesis by blast
qed

text \<open>
  C5. When opening the image, the model call or the decoding raises an \<^verbatim>\<open>Exception\<close>,
  the call returns the defaulted result: verdict unknown, confidence 0.0, the one reason
  \<^verbatim>\<open>Gemini error: \<close> followed by the text of the exception, no risky phrases, no URLs
  and the message \<^verbatim>\<open>Automatic analysis failed.\<close>
\<close>

theorem transport_failure_defaults:
  "call_gemini_sms_image B (Raised msg) =
     Inr \<lparr>verdict = ''unknown'', confidence = Finite 0,
          reasons = [''Gemini error: '' @ msg], risky_phrases = [], urls = [],
          user_message = ''Automatic analysis failed.''\<rparr>"
proof -
  have v: "norm_verdict B (error_data msg) = Inr ''unknown''"
    by (simp add: norm_verdict_def error_data_def get_def field_def str_def lower_def
        lower_char_def Let_def)
  have c: "norm_confidence B (error_data msg) = Finite 0"
    by (simp add: norm_confidence_def error_data_def get_def field_def py_float_def
        py_max_def py_min_def Let_def)
  have r: "norm_reasons B (error_data msg) = Inr [''Gemini error: '' @ msg]"
    by (simp add: norm_reasons_def error_data_def get_def field_def iter_def str_def)
  have p: "norm_risky_phrases (error_data msg) = Inr []"
    by (simp add: norm_risky_phrases_def error_data_def get_def field_def list_set_def iter_def)
  have u: "norm_urls B (error_data msg) = Inr []"
    by (simp add: norm_urls_def error_data_def get_def field_def iter_def)
  have s: "strip ''Automatic analysis failed.'' = ''Automatic analysis failed.''"
    by (simp add: strip_def is_space_def)
  have m: "norm_user_message (error_data msg) = Inr ''Automatic analysis failed.''"
    unfolding norm_user_message_def
    by (simp add: error_data_def get_def field_def s del: list.simps)
  show ?thesis
    by (simp add: call_gemini_sms_image_def normalize_reply_def v c r p u m Let_def)
qed

text \<open>
  C3, as the code has it. Whenever the normalizer returns, the reasons are the first six
  elements of the collection under \<^verbatim>\<open>reasons\<close>, in their order, each read as text, so
  there are at most six of them; a missing key gives no reasons. A value that is present
  and not iterable is not replaced by the empty sequence: the call raises
  \<^verbatim>\<open>TypeError\<close>.
\<close>

theorem reasons_first_six:
  "(normalize_reply B data = Inr r \<longrightarrow>
      length (reasons r) \<le> 6 \<and>
      (\<exists>v rs. get data ''reasons'' (JList []) = Inr v \<and> iter v = Inr rs \<and>
         reasons r = map (str B) (take 6 rs))) \<and>
   (normalize_reply B (JObj kvs) = Inr r \<and> map_of kvs ''reasons'' = None \<longrightarrow>
      reasons r = []) \<and>
   (get data ''reasons'' (JList []) = Inr v \<and> iter v = Inl e \<longrightarrow>
      normalize_reply B data = Inl TypeError)"
proof (intro conjI impI)
  assume a: "normalize_reply B data = Inr r"
  then have n: "norm_reasons B data = Inr (reasons r)"
    by (simp add: normalize_reply_Inr_iff)
  then obtain v rs where g: "get data ''reasons'' (JList []) = Inr v" and i: "iter v = Inr rs"
    and e: "reasons r = take 6 (map (str B) rs)"
    by (auto simp: norm_reasons_def split: sum.splits)
  from e show "length (reasons r) \<le> 6" by simp
  from g i e show "\<exists>v rs. get data ''reasons'' (JList []) = Inr v \<and> iter v = Inr rs \<and>
      reasons r = map (str B) (take 6 rs)"
    by (auto simp: take_map)
next
  assume "normalize_reply B (JObj kvs) = Inr r \<and> map_of kvs ''reasons'' = None"
  then have "norm_reasons B (JObj kvs) = Inr (reasons r)" and "map_of kvs ''reasons'' = None"
    by (simp_all add: normalize_reply_Inr_iff)
  then show "reasons r = []"
    by (simp add: norm_reasons_def get_def field_def iter_def)
next
  assume a: "get data ''reasons'' (JList []) = Inr v \<and> iter v = Inl e"
  then obtain kvs where d: "data = JObj kvs"
    by (auto simp: get_def split: json.splits)
  obtain w where w: "norm_verdict B data = Inr w"
    by (simp add: norm_verdict_def d get_JObj Let_def)
  from a have "e = TypeError"
    by (auto simp: iter_def split: json.splits)
  with a have "norm_reasons B data = Inl TypeError"
    by (simp add: norm_reasons_def)
  with w show "normalize_reply B data = Inl TypeError"
    by (simp add: normalize_reply_def Let_def)
qed

theorem reasons_first_six_witness:
  "reasons \<lparr>verdict = ''unknown'', confidence = Finite 0,
            reasons = [''a'', ''2'', ''None'', ''d'', ''True'', ''f''], risky_phrases = [],
            urls = [], user_message = ''No explanation provided.''\<rparr> =
     map (str sample_ops) (take 6 [JStr ''a'', JInt 2, JNull, JStr ''d'', JBool True, JStr ''f'',
                                  JStr ''g'', JStr ''h'']) \<and>
   reasons \<lparr>verdict = ''unknown'', confidence = Finite 0, reasons = [], risky_phrases = [],
            urls = [], user_message = ''No explanation provided.''\<rparr> = [] \<and>
   normalize_reply sample_ops (JObj [(''reasons'', JInt 5)]) = Inl TypeError"
proof -
  have h1: "normalize_reply sample_ops
      (JObj [(''reasons'', JList [JStr ''a'', JInt 2, JNull, JStr ''d'', JBool True, JStr ''f'',
                                  JStr ''g'', JStr ''h''])]) =
     Inr \<lparr>verdict = ''unknown'', confidence = Finite 0,
          reasons = [''a'', ''2'', ''None'', ''d'', ''True'', ''f''], risky_phrases = [],
          urls = [], user_message = ''No explanation provided.''\<rparr>"
    by code_simp
  have g1: "get (JObj [(''reasons'', JList [JStr ''a'', JInt 2, JNull, JStr ''d'', JBool True,
                                           JStr ''f'', JStr ''g'', JStr ''h''])])
              ''reasons'' (JList []) =
            Inr (JList [JStr ''a'', JInt 2, JNull, JStr ''d'', JBool True, JStr ''f'',
                        JStr ''g'', JStr ''h''])"
    by (simp add: get_def field_def)
  have h2: "normalize_reply sample_ops (JObj []) =
     Inr \<lparr>verdict = ''unknown'', confidence = Finite 0, reasons = [], risky_phrases = [],
          urls = [], user_message = ''No explanation provided.''\<rparr>"
    by code_simp
  have h3: "get (JObj [(''reasons'', JInt 5)]) ''reasons'' (JList []) = Inr (JInt 5) \<and>
            iter (JInt 5) = Inl TypeError"
    by (simp add: get_def field_def iter_def)
  from reasons_first_six [of sample_ops
      "JObj [(''reasons'', JList [JStr ''a'', JInt 2, JNull, JStr ''d'', JBool True, JStr ''f'',
                                  JStr ''g'', JStr ''h''])]"
      "\<lparr>verdict = ''unknown'', confidence = Finite 0,
        reasons = [''a'', ''2'', ''None'', ''d'', ''True'', ''f''], risky_phrases = [],
        urls = [], user_message = ''No explanation provided.''\<rparr>"] h1 g1
  have c1: "reasons \<lparr>verdict = ''unknown'', confidence = Finite 0,
            reasons = [''a'', ''2'', ''None'', ''d'', ''True'', ''f''], risky_phrases = [],
            urls = [], user_message = ''No explanation provided.''\<rparr> =
     map (str sample_ops) (take 6 [JStr ''a'', JInt 2, JNull, JStr ''d'', JBool True, JStr ''f'',
                                  JStr ''g'', JStr ''h''])"
    by (auto simp: iter_def)
  from reasons_first_six [of sample_ops "JObj []"
      "\<lparr>verdict = ''unknown'', confidence = Finite 0, reasons = [], risky_phrases = [],
        urls = [], user_message = ''No explanation provided.''\<rparr>" "[]"] h2
  have c2: "reasons \<lparr>verdict = ''unknown'', confidence = Finite 0, reasons = [],
                     risky_phrases = [], urls = [],
                     user_message = ''No explanation provided.''\<rparr> = []"
    by simp
  from reasons_first_six [of sample_ops "JObj [(''reasons'', JInt 5)]" _ _ "JInt 5" TypeError] h3
  have c3: "normalize_reply sample_ops (JObj [(''reasons'', JInt 5)]) = Inl TypeError"
    by blast
  from c1 c2 c3 show ?thesis by blast
qed

text \<open>
  C3 as the specification states it fails: with the number 5 under \<^verbatim>\<open>reasons\<close>, line 106
  raises \<^verbatim>\<open>TypeError\<close> and the normalizer returns nothing.
\<close>

theorem reasons_not_iterable_raises:
  "normalize_reply sample_ops (JObj [(''reasons'', JInt 5)]) = Inl TypeError"
  by code_simp

text \<open>
  C4 fails on the code. Line 117 calls \<^verbatim>\<open>strip\<close> on the value without \<^verbatim>\<open>str\<close>, unlike
  lines 96, 111 and 112: with the number 42 under \<^verbatim>\<open>user_message\<close> the call raises
  \<^verbatim>\<open>AttributeError\<close>, where the claim has the message \<^verbatim>\<open>42\<close>.
\<close>

theorem user_message_number_raises:
  "call_gemini_sms_image sample_ops (Loaded (JObj [(''user_message'', JInt 42)])) =
     Inl AttributeError"
  by code_simp

text \<open>
  On a string, and on a missing key, line 117 does what C4 says: the message is the
  trimmed text, or the fallback sentence when that is empty, and is never empty.
\<close>

lemma user_message_of_string:
  assumes "normalize_reply B data = Inr r"
  shows "\<exists>s. get data ''user_message'' (JStr []) = Inr (JStr s) \<and>
             user_message r = (if strip s = [] then ''No explanation provided.'' else strip s) \<and>
             user_message r \<noteq> []"
proof -
  from assms have "norm_user_message data = Inr (user_message r)"
    by (simp add: normalize_reply_Inr_iff)
  then obtain s where g: "get data ''user_message'' (JStr []) = Inr (JStr s)"
    and m: "user_message r = (if strip s = [] then ''No explanation provided.'' else strip s)"
    by (auto simp: norm_user_message_def split: sum.splits json.splits)
  from m have "user_message r \<noteq> []" by (cases "strip s = []") simp_all
  with g m show ?thesis by blast
qed

text \<open>
  C6. Whenever the normalizer returns, the entries of the collection under \<^verbatim>\<open>urls\<close>
  and the entries of the result correspond one to one, in order: the \<^verbatim>\<open>url\<close> is the
  value under \<^verbatim>\<open>url\<close> (the empty string if absent) read as text and trimmed; the
  \<^verbatim>\<open>status\<close> is the value under \<^verbatim>\<open>status\<close> read as text and lower-cased if that is one
  of safe, suspicious, phishing, and \<^verbatim>\<open>suspicious\<close> otherwise, so a missing or
  unrecognized status is never \<^verbatim>\<open>safe\<close>.
\<close>

theorem urls_status_fail_safe:
  assumes "normalize_reply B data = Inr r"
  shows "\<exists>v items. get data ''urls'' (JList []) = Inr v \<and> iter v = Inr items \<and>
           list_all2
             (\<lambda>item d. \<exists>uv sv.
                get item ''url'' (JStr []) = Inr uv \<and> get item ''status'' (JStr []) = Inr sv \<and>
                url d = strip (str B uv) \<and>
                status d = (if lower (str B sv) \<in> {''safe'', ''suspicious'', ''phishing''}
                            then lower (str B sv) else ''suspicious'') \<and>
                (status d = ''safe'' \<longrightarrow> lower (str B sv) = ''safe''))
             items (urls r)"
proof -
  from assms have "norm_urls B data = Inr (urls r)"
    by (simp add: normalize_reply_Inr_iff)
  then obtain v items where g: "get data ''urls'' (JList []) = Inr v" and i: "iter v = Inr items"
    and l: "url_loop B items [] = Inr (urls r)"
    by (auto simp: norm_urls_def split: sum.splits)
  from url_loop_Inr [OF l] have "list_all2 (\<lambda>item d. url_item B item = Inr d) items (urls r)"
    by simp
  then have "list_all2
             (\<lambda>item d. \<exists>uv sv.
                get item ''url'' (JStr []) = Inr uv \<and> get item ''status'' (JStr []) = Inr sv \<and>
                url d = strip (str B uv) \<and>
                status d = (if lower (str B sv) \<in> {''safe'', ''suspicious'', ''phishing''}
                            then lower (str B sv) else ''suspicious'') \<and>
                (status d = ''safe'' \<longrightarrow> lower (str B sv) = ''safe''))
             items (urls r)"
  proof (rule list_all2_mono)
    fix item d
    assume "url_item B item = Inr d"
    from url_item_Inr [OF this] obtain uv sv where
      "get item ''url'' (JStr []) = Inr uv" "get item ''status'' (JStr []) = Inr sv"
      "url d = strip (str B uv)"
      "status d = (if lower (str B sv) \<in> {''safe'', ''suspicious'', ''phishing''}
                            then lower (str B sv) else ''suspicious'')"
      by blast
    moreover from this have "status d = ''safe'' \<longrightarrow> lower (str B sv) = ''safe''"
      by (auto split: if_splits)
    ultimately show "\<exists>uv sv.
                get item ''url'' (JStr []) = Inr uv \<and> get item ''status'' (JStr []) = Inr sv \<and>
                url d = strip (str B uv) \<and>
                status d = (if lower (str B sv) \<in> {''safe'', ''suspicious'', ''phishing''}
                            then lower (str B sv) else ''suspicious'') \<and>
                (status d = ''safe'' \<longrightarrow> lower (str B sv) = ''safe'')"
      by blast
  qed
  with g i show ?thesis by blast
qed

theorem urls_status_fail_safe_witness:
  "normalize_reply sample_ops
     (JObj [(''urls'', JList [JObj [(''url'', JStr '' http://x ''), (''status'', JStr ''weird'')],
                              JObj [(''url'', JStr ''http://y''), (''status'', JStr ''SAFE'')],
                              JObj []])]) =
     Inr \<lparr>verdict = ''unknown'', confidence = Finite 0, reasons = [], risky_phrases = [],
          urls = [\<lparr>url = ''http://x'', status = ''suspicious''\<rparr>,
                  \<lparr>url = ''http://y'', status = ''safe''\<rparr>,
                  \<lparr>url = '''', status = ''suspicious''\<rparr>],
          user_message = ''No explanation provided.''\<rparr> \<and>
   (\<exists>v items.
      get (JObj [(''urls'', JList [JObj [(''url'', JStr '' http://x ''), (''status'', JStr ''weird'')],
                                   JObj [(''url'', JStr ''http://y''), (''status'', JStr ''SAFE'')],
                                   JObj []])]) ''urls'' (JList []) = Inr v \<and>
      iter v = Inr items)"
proof -
  have h: "normalize_reply sample_ops
     (JObj [(''urls'', JList [JObj [(''url'', JStr '' http://x ''), (''status'', JStr ''weird'')],
                              JObj [(''url'', JStr ''http://y''), (''status'', JStr ''SAFE'')],
                              JObj []])]) =
     Inr \<lparr>verdict = ''unknown'', confidence = Finite 0, reasons = [], risky_phrases = [],
          urls = [\<lparr>url = ''http://x'', status = ''suspicious''\<rparr>,
                  \<lparr>url = ''http://y'', status = ''safe''\<rparr>,
                  \<lparr>url = '''', status = ''suspicious''\<rparr>],
          user_message = ''No explanation provided.''\<rparr>"
    by code_simp
  from urls_status_fail_safe [OF h] h show ?thesis by blast
qed

section \<open>Facts about the formatter\<close>

text \<open>
  The template of line 52 expands to the same text whatever was matched: its two
  backslashes are read as one escaped backslash, and the \<^verbatim>\<open>1\<close> after them is a plain
  character, so group 1 is never inserted.
\<close>

lemma mark_template_ignores_match:
  "expand_template mark_template g = ''<mark>'' @ [backslash] @ ''1</mark>''"
  by (simp add: mark_template_def backslash_def)

text \<open>
  C2 fails on the code. With the text \<^verbatim>\<open>Your OTP is urgent\<close> and the phrases
  \<^verbatim>\<open>OTP\<close> and \<^verbatim>\<open>urgent\<close>, each match is replaced by a marker around a backslash and
  the digit 1; the matched words are lost, where the claim has them kept inside the marker.
\<close>

theorem highlight_loses_matched_text:
  "highlight_phrases ''Your OTP is urgent'' [''OTP'', ''urgent''] =
     ''Your <mark>'' @ [backslash] @ ''1</mark> is <mark>'' @ [backslash] @ ''1</mark>'' \<and>
   highlight_phrases ''Your OTP is urgent'' [''OTP'', ''urgent''] \<noteq>
     ''Your <mark>OTP</mark> is <mark>urgent</mark>''"
  by code_simp

text \<open>The part of C2 on partial words holds: \<^verbatim>\<open>urgent\<close> is not matched inside \<^verbatim>\<open>urgently\<close>.\<close>

lemma highlight_skips_partial_word:
  "highlight_phrases ''act urgently'' [''urgent''] = ''act urgently''"
  by code_simp

text \<open>
  C7, as the code has it. The phrases are processed without repetition and in descending
  order of length, so a longer phrase is substituted before a shorter one; each substitution
  runs over the whole string that the earlier ones produced.
\<close>

theorem phrases_longest_first:
  "distinct (phrase_order phrases) \<and>
   set (phrase_order phrases) = set phrases \<and>
   sorted_wrt (\<lambda>p q. length q \<le> length p) (phrase_order phrases) \<and>
   highlight_phrases text phrases =
     foldl (\<lambda>escaped p. re_sub p mark_template escaped) (escape text) (phrase_order phrases)"
proof -
  have d: "distinct (phrase_order phrases)"
    by (simp add: phrase_order_def)
  have s: "set (phrase_order phrases) = set phrases"
    by (simp add: phrase_order_def)
  have "sorted (map (\<lambda>p. - int (length p)) (phrase_order phrases))"
    unfolding phrase_order_def by (rule sorted_sort_key)
  then have "sorted_wrt (\<lambda>p q. - int (length p) \<le> - int (length q)) (phrase_order phrases)"
    by (simp add: sorted_map)
  then have o: "sorted_wrt (\<lambda>p q. length q \<le> length p) (phrase_order phrases)"
    by (rule sorted_wrt_mono_rel [rotated]) simp
  from d s o show ?thesis
    by (simp add: highlight_phrases_def)
qed

theorem phrases_longest_first_witness:
  "phrase_order [''now'', ''act now'', ''now''] = [''act now'', ''now''] \<and>
   distinct (phrase_order [''now'', ''act now'', ''now'']) \<and>
   sorted_wrt (\<lambda>p q. length q \<le> length p) (phrase_order [''now'', ''act now'', ''now''])"
proof -
  have h: "phrase_order [''now'', ''act now'', ''now''] = [''act now'', ''now'']"
    by code_simp
  from phrases_longest_first [of "[''now'', ''act now'', ''now'']" "''act now''"] h
  show ?thesis by blast
qed

text \<open>
  C7 as the specification states it fails: with the text \<^verbatim>\<open>act 1\<close> and the phrases
  \<^verbatim>\<open>act 1\<close> and \<^verbatim>\<open>1\<close>, the second a whole word of the first, the longer phrase is
  substituted first and the shorter one is then matched inside its marker, which gives a
  marker inside a marker.
\<close>

theorem highlight_nests_markers:
  "highlight_phrases ''act 1'' [''act 1'', ''1''] =
     ''<mark>'' @ [backslash] @ ''<mark>'' @ [backslash] @ ''1</mark></mark>'' \<and>
   nesting_depth 0 (highlight_phrases ''act 1'' [''act 1'', ''1'']) = 2"
  by code_simp

text \<open>
  A later phrase is also matched inside the tags of an earlier marker, whatever the marker
  holds: \<^verbatim>\<open>mark\<close> is a whole word of \<^verbatim>\<open>mark it\<close>.
\<close>

lemma highlight_wraps_tag_names:
  "highlight_phrases ''mark it'' [''mark it'', ''mark''] =
     ''<<mark>'' @ [backslash] @ ''1</mark>>'' @ [backslash] @ ''1</<mark>'' @ [backslash] @
     ''1</mark>>''"
  by code_simp

section \<open>The route without a file\<close>

text \<open>
  C10. For a POST request whose \<^verbatim>\<open>image\<close> field is absent or has an empty file name,
  the handler saves no file and renders the page with no analysis, the empty highlighted
  text and no image path, which is what it does for any GET request.
\<close>

theorem index_post_without_file:
  assumes "req_method req = POST"
    and "image req = None \<or> (\<exists>file. image req = Some file \<and> filename file = [])"
    and "req_method get_req = GET"
  shows "index B model req =
           ([], Inr \<lparr>image_path = None, sms_text = [], highlighted_text = [],
                     analysis = None\<rparr>) \<and>
         index B model req = index B model get_req"
  using assms by (auto simp: index_def Let_def)

theorem index_post_without_file_witness:
  "index sample_ops (\<lambda>path. Loaded (JObj []))
     \<lparr>req_method = POST, image = Some \<lparr>filename = []\<rparr>\<rparr> =
     ([], Inr \<lparr>image_path = None, sms_text = [], highlighted_text = [], analysis = None\<rparr>) \<and>
   index sample_ops (\<lambda>path. Loaded (JObj []))
     \<lparr>req_method = POST, image = Some \<lparr>filename = []\<rparr>\<rparr> =
   index sample_ops (\<lambda>path. Loaded (JObj []))
     \<lparr>req_method = GET, image = Some \<lparr>filename = ''a.png''\<rparr>\<rparr>"
proof -
  have h1: "req_method \<lparr>req_method = POST, image = Some \<lparr>filename = []\<rparr>\<rparr> = POST"
    by simp
  have h2: "image \<lparr>req_method = POST, image = Some \<lparr>filename = []\<rparr>\<rparr> = None \<or>
            (\<exists>file. image \<lparr>req_method = POST, image = Some \<lparr>filename = []\<rparr>\<rparr> = Some file \<and>
                    filename file = [])"
    by simp
  have h3: "req_method \<lparr>req_method = GET, image = Some \<lparr>filename = ''a.png''\<rparr>\<rparr> = GET"
    by simp
  from index_post_without_file [OF h1 h2 h3] show ?thesis by blast
qed

end
